theory Spec2Isabelle
  imports Main
begin

section \<open>Python values\<close>

text \<open>
  The values that reach the node tree. A float is carried as the text that \<open>str()\<close>
  gives for it, so no floating-point arithmetic is modelled. Characters are ASCII.
\<close>

datatype pyval = PNone | PBool bool | PInt int | PFloat string | PStr string

text \<open>An argument of \<open>add_child\<close>: a scalar value, or a dict as its ordered items.\<close>

datatype pyobj = Val pyval | Dict "(pyval \<times> pyval) list"

datatype error = TypeError string | AttributeError | RuntimeError string

definition dq :: string where
  "dq = [CHR 0x22]"

definition nl :: string where
  "nl = [CHR 0x0A]"

definition tab :: string where
  "tab = [CHR 0x09]"

fun show_nat :: "nat \<Rightarrow> string" where
  "show_nat n =
     (if n < 10 then [''0123456789'' ! n]
      else show_nat (n div 10) @ [''0123456789'' ! (n mod 10)])"

declare show_nat.simps [simp del]

definition show_int :: "int \<Rightarrow> string" where
  "show_int i = (if i < 0 then ''-'' @ show_nat (nat (- i)) else show_nat (nat i))"

text \<open>\<open>str(value)\<close>, which is also what an f-string writes for the value.\<close>

fun py_str :: "pyval \<Rightarrow> string" where
  "py_str PNone = ''None''"
| "py_str (PBool b) = (if b then ''True'' else ''False'')"
| "py_str (PInt i) = show_int i"
| "py_str (PFloat s) = s"
| "py_str (PStr s) = s"

text \<open>\<open>sep.join(parts)\<close>\<close>

fun str_join :: "string \<Rightarrow> string list \<Rightarrow> string" where
  "str_join sep [] = []"
| "str_join sep [x] = x"
| "str_join sep (x # y # ys) = x @ sep @ str_join sep (y # ys)"

text \<open>\<open>s.endswith('_')\<close>\<close>

definition endswith_underscore :: "string \<Rightarrow> bool" where
  "endswith_underscore s = (s \<noteq> [] \<and> last s = CHR ''_'')"

text \<open>
  \<open>d[k] = v\<close> on an insertion-ordered dict: an existing key keeps its place and takes
  the new value, a new key goes to the end.
\<close>

fun dict_set :: "('k \<times> 'v) list \<Rightarrow> 'k \<Rightarrow> 'v \<Rightarrow> ('k \<times> 'v) list" where
  "dict_set [] k v = [(k, v)]"
| "dict_set ((k', v') # d) k v = (if k' = k then (k, v) # d else (k', v') # dict_set d k v)"

text \<open>Exceptions in a sequence of calls: the first one raised ends the sequence.\<close>

fun sequence :: "(error + 'a) list \<Rightarrow> error + 'a list" where
  "sequence [] = Inr []"
| "sequence (r # rs) =
     (case r of
        Inl e \<Rightarrow> Inl e
      | Inr x \<Rightarrow> (case sequence rs of Inl e \<Rightarrow> Inl e | Inr xs \<Rightarrow> Inr (x # xs)))"

section \<open>golia.py: HTMLNode\<close>

text \<open>
  One node of the tree. The \<open>parent\<close> field of the source is a back-reference that
  \<open>__init__\<close> sets once, to the node whose \<open>add_child\<close> appends the new node; it is
  represented by the node's position in the tree (see the document model below).
  \<open>force_inline_flag\<close> is the field \<open>_force_inline\<close>.
\<close>

datatype HTMLNode = HTMLNode
  (tag: "string option")
  (content: string)
  (attr: "(pyval \<times> pyval) list")
  (children: "HTMLNode list")
  (is_void: bool)
  (is_text_node: bool)
  (inline: bool)
  (force_inline_flag: bool)

definition VOID_ELEMENTS :: "string set" where
  "VOID_ELEMENTS =
     {''meta'', ''img'', ''br'', ''hr'', ''input'', ''link'', ''area'', ''base'', ''col'',
      ''embed'', ''param'', ''source'', ''track'', ''wbr'', ''command'', ''keygen'', ''menuitem''}"

definition INLINE_ELEMENTS :: "string set" where
  "INLINE_ELEMENTS =
     {''span'', ''a'', ''strong'', ''em'', ''code'', ''small'', ''b'', ''i'', ''u'', ''mark'',
      ''sub'', ''sup'', ''time'', ''data'', ''label'', ''abbr'', ''cite'', ''q'', ''samp'',
      ''var'', ''kbd'', ''s'', ''del'', ''ins''}"

text \<open>
  \<open>HTMLNode.__init__(tag, content, attr)\<close>, with \<open>content\<close> already a string.
  \<open>attr\<close> is \<open>None\<close> or the items of a dict.
\<close>

definition HTMLNode_init ::
  "string option \<Rightarrow> string \<Rightarrow> (pyval \<times> pyval) list option \<Rightarrow> HTMLNode" where
  "HTMLNode_init tg ct at =
     (let tg' = (case tg of
                   None \<Rightarrow> None
                 | Some t \<Rightarrow> if t \<noteq> [] \<and> endswith_underscore t then Some (butlast t) else Some t)
      in HTMLNode tg' ct
           (case at of None \<Rightarrow> [] | Some d \<Rightarrow> if d \<noteq> [] then d else [])
           []
           (case tg' of None \<Rightarrow> False | Some t \<Rightarrow> t \<in> VOID_ELEMENTS)
           (tg' = None)
           (case tg' of None \<Rightarrow> False | Some t \<Rightarrow> if t \<noteq> [] then t \<in> INLINE_ELEMENTS else False)
           False)"

text \<open>\<open>isinstance(content, (str, int, float, bool))\<close>\<close>

fun is_string_convertible :: "pyobj \<Rightarrow> bool" where
  "is_string_convertible (Val PNone) = False"
| "is_string_convertible (Val _) = True"
| "is_string_convertible (Dict _) = False"

text \<open>
  \<open>add_child(tag, content, attr)\<close>. The result is the node after the call together with
  what the call returned or raised; \<open>attr = Val PNone\<close> is the default \<open>None\<close>.
\<close>

definition add_child ::
  "HTMLNode \<Rightarrow> string option \<Rightarrow> pyobj \<Rightarrow> pyobj \<Rightarrow> HTMLNode \<times> (error + HTMLNode)" where
  "add_child self tg ct at =
     (if \<not> is_string_convertible ct then
        (self, Inl (TypeError ''Content must be string-convertible''))
      else if at \<noteq> Val PNone \<and> (case at of Dict _ \<Rightarrow> False | Val _ \<Rightarrow> True) then
        (self, Inl (TypeError ''Attributes must be a dictionary''))
      else
        (let text = (case ct of Val v \<Rightarrow> py_str v | Dict _ \<Rightarrow> []) in
         case tg of
           None \<Rightarrow>
             (let text_node = HTMLNode_init None text None
              in (HTMLNode (tag self) (content self) (attr self) (children self @ [text_node])
                    (is_void self) (is_text_node self) (inline self) (force_inline_flag self),
                  Inr text_node))
         | Some t \<Rightarrow>
             (let child = HTMLNode_init (Some t) text
                            (case at of Dict d \<Rightarrow> Some d | Val _ \<Rightarrow> None)
              in (HTMLNode (tag self) (content self) (attr self) (children self @ [child])
                    (is_void self) (is_text_node self) (inline self) (force_inline_flag self),
                  Inr child))))"

subsection \<open>Attribute normalization\<close>

text \<open>\<open>key[:-1] if key.endswith('_') else key\<close>, then \<open>.replace('_', '-')\<close>\<close>

definition new_key :: "string \<Rightarrow> string" where
  "new_key key =
     map (\<lambda>c. if c = CHR ''_'' then CHR ''-'' else c)
       (if endswith_underscore key then butlast key else key)"

text \<open>
  The first loop of \<open>_convert_attributes\<close>. A key that is not a string has no
  \<open>endswith\<close>, which raises AttributeError.
\<close>

fun convert_loop ::
  "(pyval \<times> pyval) list \<Rightarrow> (string \<times> pyval) list \<Rightarrow> error + (string \<times> pyval) list" where
  "convert_loop [] converted = Inr converted"
| "convert_loop ((PStr key, v) # rest) converted =
     (if key = ''klass'' then convert_loop rest (dict_set converted ''class'' v)
      else convert_loop rest
             (dict_set converted (new_key key) (if v = PBool True then PNone else v)))"
| "convert_loop ((_, v) # rest) converted = Inl AttributeError"

text \<open>The dict \<open>converted\<close> as it is when the attribute string is built.\<close>

definition converted_attributes ::
  "string option \<Rightarrow> (pyval \<times> pyval) list \<Rightarrow> error + (string \<times> pyval) list" where
  "converted_attributes tg at =
     (case convert_loop at [] of
        Inl e \<Rightarrow> Inl e
      | Inr converted \<Rightarrow>
          if tg = Some ''meta'' \<and> map_of converted ''content'' = Some (PBool True)
          then Inr (dict_set converted ''content'' (PStr []))
          else Inr converted)"

definition attr_part :: "string \<times> pyval \<Rightarrow> string" where
  "attr_part kv =
     (case kv of (key, v) \<Rightarrow> if v = PNone then key else key @ ''='' @ dq @ py_str v @ dq)"

definition attr_parts :: "(string \<times> pyval) list \<Rightarrow> string list" where
  "attr_parts converted = map attr_part converted"

definition convert_attributes :: "string option \<Rightarrow> (pyval \<times> pyval) list \<Rightarrow> error + string" where
  "convert_attributes tg at =
     (case converted_attributes tg at of
        Inl e \<Rightarrow> Inl e
      | Inr converted \<Rightarrow> Inr (str_join '' '' (attr_parts converted)))"

subsection \<open>Rendering\<close>

text \<open>What an f-string writes for \<open>self.tag\<close>.\<close>

definition tag_text :: "string option \<Rightarrow> string" where
  "tag_text tg = (case tg of None \<Rightarrow> ''None'' | Some t \<Rightarrow> t)"

text \<open>\<open>"\t" * indent_level\<close>: a negative count gives the empty string.\<close>

definition indent_of :: "int \<Rightarrow> string" where
  "indent_of indent_level = concat (replicate (nat indent_level) tab)"

definition open_tag :: "int \<Rightarrow> string option \<Rightarrow> string \<Rightarrow> string" where
  "open_tag indent_level tg attr_str =
     indent_of indent_level @ ''<'' @ tag_text tg @ (if attr_str \<noteq> [] then '' '' @ attr_str else [])"

definition close_tag :: "string option \<Rightarrow> string" where
  "close_tag tg = ''</'' @ tag_text tg @ ''>''"

fun render :: "HTMLNode \<Rightarrow> int \<Rightarrow> bool \<Rightarrow> error + string" where
  "render (HTMLNode tg ct at ch iv it il fi) indent_level parent_inline =
     (if it then Inr (indent_of indent_level @ ct)
      else
        (let current_inline = (il \<or> fi \<or> parent_inline) in
         case convert_attributes tg at of
           Inl e \<Rightarrow> Inl e
         | Inr attr_str \<Rightarrow>
             if iv then Inr (open_tag indent_level tg attr_str @ '' />'')
             else
               (case (if ch \<noteq> [] then
                        (if current_inline then
                           (case sequence (map (\<lambda>child. render child 0 current_inline) ch) of
                              Inl e \<Rightarrow> Inl e
                            | Inr rs \<Rightarrow> Inr (concat rs))
                         else
                           (case sequence
                                   (map (\<lambda>child. render child (indent_level + 1) current_inline) ch) of
                              Inl e \<Rightarrow> Inl e
                            | Inr rs \<Rightarrow> Inr (nl @ str_join nl rs @ nl @ indent_of indent_level)))
                      else if ct \<noteq> [] then Inr ct
                      else Inr [])
                of
                  Inl e \<Rightarrow> Inl e
                | Inr children_content \<Rightarrow>
                    Inr (open_tag indent_level tg attr_str @ ''>'' @ children_content @ close_tag tg))))"

text \<open>
  The flags that \<open>__init__\<close> derives from the tag and that no method changes
  afterwards: a node has them as constructed.
\<close>

definition flags_from_tag :: "HTMLNode \<Rightarrow> bool" where
  "flags_from_tag n =
     (is_void n = (case tag n of None \<Rightarrow> False | Some t \<Rightarrow> t \<in> VOID_ELEMENTS) \<and>
      is_text_node n = (tag n = None))"

text \<open>
  Inline rendering in the spec's words, for comparison with \<open>render\<close>: the node and
  every descendant without newlines or indentation between children. No flag of any
  node is consulted.
\<close>

fun render_flat :: "HTMLNode \<Rightarrow> int \<Rightarrow> error + string" where
  "render_flat (HTMLNode tg ct at ch iv it il fi) indent_level =
     (if it then Inr (indent_of indent_level @ ct)
      else
        (case convert_attributes tg at of
           Inl e \<Rightarrow> Inl e
         | Inr attr_str \<Rightarrow>
             if iv then Inr (open_tag indent_level tg attr_str @ '' />'')
             else
               (case (if ch \<noteq> [] then
                        (case sequence (map (\<lambda>child. render_flat child 0) ch) of
                           Inl e \<Rightarrow> Inl e
                         | Inr rs \<Rightarrow> Inr (concat rs))
                      else Inr ct)
                of
                  Inl e \<Rightarrow> Inl e
                | Inr children_content \<Rightarrow>
                    Inr (open_tag indent_level tg attr_str @ ''>'' @ children_content @ close_tag tg))))"

text \<open>
  \<open>force_inline(recursive)\<close>: sets the flag on the node and, when \<open>recursive\<close>, on every
  descendant that exists at the time of the call.
\<close>

fun force_inline :: "HTMLNode \<Rightarrow> bool \<Rightarrow> HTMLNode" where
  "force_inline (HTMLNode tg ct at ch iv it il fi) recursive =
     HTMLNode tg ct at (if recursive then map (\<lambda>child. force_inline child True) ch else ch)
       iv it il True"

text \<open>
  The items of a dict of normalized pairs, given back as a raw attribute dict.
\<close>

definition as_raw :: "(string \<times> pyval) list \<Rightarrow> (pyval \<times> pyval) list" where
  "as_raw c = map (\<lambda>kv. (PStr (fst kv), snd kv)) c"

text \<open>
  Pairs that a further normalization pass leaves as they are: distinct keys, none of
  them \<open>klass\<close>, each its own \<open>new_key\<close>, and no value \<open>True\<close>.
\<close>

definition stable_pairs :: "(string \<times> pyval) list \<Rightarrow> bool" where
  "stable_pairs c =
     (distinct (map fst c) \<and>
      (\<forall>kv \<in> set c. fst kv \<noteq> ''klass'' \<and> new_key (fst kv) = fst kv \<and> snd kv \<noteq> PBool True))"

section \<open>golia.py: HTML, the document\<close>

text \<open>
  \<open>current_node\<close> is \<open>None\<close> or a reference to a node below \<open>body_root\<close> (or to
  \<open>body_root\<close> itself). A reference is the list of child indices that leads from
  \<open>body_root\<close> to the node; \<open>[]\<close> is \<open>body_root\<close>. Since \<open>add_child\<close> is the only
  place that sets \<open>parent\<close>, the parent of the node at \<open>p @ [i]\<close> is the node at \<open>p\<close>,
  and \<open>body_root\<close>, built by \<open>HTMLNode("body")\<close>, has parent \<open>None\<close>.
\<close>

type_synonym node_ref = "nat list"

record HTML =
  head_root :: HTMLNode
  body_root :: HTMLNode
  current_node :: "node_ref option"

definition parent_of :: "node_ref \<Rightarrow> node_ref option" where
  "parent_of p = (if p = [] then None else Some (butlast p))"

definition HTML_init :: HTML where
  "HTML_init =
     \<lparr>head_root = HTMLNode_init (Some ''head'') [] None,
      body_root = HTMLNode_init (Some ''body'') [] None,
      current_node = None\<rparr>"

text \<open>
  \<open>add_child\<close> called on the node that \<open>p\<close> refers to, inside the tree \<open>n\<close>; the
  node returned is given as its reference from the root of \<open>n\<close>.
\<close>

fun add_child_at ::
  "HTMLNode \<Rightarrow> node_ref \<Rightarrow> string option \<Rightarrow> pyobj \<Rightarrow> pyobj \<Rightarrow> HTMLNode \<times> (error + node_ref)" where
  "add_child_at n [] tg ct at =
     (case add_child n tg ct at of
        (n', Inl e) \<Rightarrow> (n', Inl e)
      | (n', Inr child) \<Rightarrow> (n', Inr [length (children n)]))"
| "add_child_at n (i # p) tg ct at =
     (case add_child_at (children n ! i) p tg ct at of
        (c', r) \<Rightarrow>
          (HTMLNode (tag n) (content n) (attr n) ((children n)[i := c'])
             (is_void n) (is_text_node n) (inline n) (force_inline_flag n),
           case r of Inl e \<Rightarrow> Inl e | Inr q \<Rightarrow> Inr (i # q)))"

definition add_head_element ::
  "HTML \<Rightarrow> string \<Rightarrow> pyobj \<Rightarrow> pyobj \<Rightarrow> HTML \<times> (error + HTMLNode)" where
  "add_head_element self tg ct at =
     (case add_child (head_root self) (Some tg) ct at of
        (h', r) \<Rightarrow> (self\<lparr>head_root := h'\<rparr>, r))"

definition add_body_element ::
  "HTML \<Rightarrow> string \<Rightarrow> pyobj \<Rightarrow> pyobj \<Rightarrow> HTML \<times> (error + node_ref)" where
  "add_body_element self tg ct at =
     (let parent = (case current_node self of None \<Rightarrow> [] | Some p \<Rightarrow> p) in
      case add_child_at (body_root self) parent (Some tg) ct at of
        (b', r) \<Rightarrow>
          (self\<lparr>body_root := b'\<rparr>,
           r))"

definition start_nested_element ::
  "HTML \<Rightarrow> string \<Rightarrow> pyobj \<Rightarrow> pyobj \<Rightarrow> HTML \<times> (error + node_ref)" where
  "start_nested_element self tg ct at =
     (let parent = (case current_node self of None \<Rightarrow> [] | Some p \<Rightarrow> p) in
      case add_child_at (body_root self) parent (Some tg) ct at of
        (b', Inl e) \<Rightarrow> (self\<lparr>body_root := b'\<rparr>, Inl e)
      | (b', Inr q) \<Rightarrow>
          (self\<lparr>body_root := b', current_node := Some q\<rparr>, Inr q))"

definition end_nested_element :: "HTML \<Rightarrow> HTML \<times> (error + unit)" where
  "end_nested_element self =
     (case current_node self of
        None \<Rightarrow> (self, Inl (RuntimeError ''Not in a nested element context''))
      | Some p \<Rightarrow> (self\<lparr>current_node := parent_of p\<rparr>, Inr ()))"

text \<open>The loop of \<open>get_current_depth\<close>; \<open>node != self.body_root\<close> is \<open>p \<noteq> []\<close>.\<close>

function depth_loop :: "node_ref option \<Rightarrow> int \<Rightarrow> int" where
  "depth_loop node depth =
     (case node of
        None \<Rightarrow> depth
      | Some p \<Rightarrow> if p \<noteq> [] then depth_loop (parent_of p) (depth + 1) else depth)"
  by pat_completeness auto
termination
  by (relation "measure (\<lambda>(node, depth). case node of None \<Rightarrow> 0 | Some p \<Rightarrow> Suc (length p))")
     (auto simp: parent_of_def)

declare depth_loop.simps [simp del]

definition get_current_depth :: "HTML \<Rightarrow> int" where
  "get_current_depth self = depth_loop (current_node self) 0"

text \<open>A call of the scope-building interface, and a run of such calls.\<close>

datatype scope_call = Start_nested string pyobj pyobj | End_nested

fun scope_step :: "HTML \<Rightarrow> scope_call \<Rightarrow> HTML \<times> (error + unit)" where
  "scope_step self (Start_nested tg ct at) =
     (case start_nested_element self tg ct at of
        (self', Inl e) \<Rightarrow> (self', Inl e)
      | (self', Inr q) \<Rightarrow> (self', Inr ()))"
| "scope_step self End_nested = end_nested_element self"

text \<open>The calls are made in order; the first exception ends the run.\<close>

fun scope_run :: "HTML \<Rightarrow> scope_call list \<Rightarrow> HTML \<times> (error + unit)" where
  "scope_run self [] = (self, Inr ())"
| "scope_run self (c # cs) =
     (case scope_step self c of
        (self', Inl e) \<Rightarrow> (self', Inl e)
      | (self', Inr u) \<Rightarrow> scope_run self' cs)"

section \<open>derender.py: the transpiler\<close>

definition sq :: string where
  "sq = [CHR 0x27]"

text \<open>\<open>\w\<close> on ASCII text: a letter, a digit or the underscore.\<close>

definition is_word_char :: "char \<Rightarrow> bool" where
  "is_word_char c =
     (let n = (of_char c :: nat)
      in (48 \<le> n \<and> n \<le> 57) \<or> (65 \<le> n \<and> n \<le> 90) \<or> n = 95 \<or> (97 \<le> n \<and> n \<le> 122))"

text \<open>The ASCII characters that \<open>str.strip()\<close> removes.\<close>

definition is_space :: "char \<Rightarrow> bool" where
  "is_space c = (let n = (of_char c :: nat) in (9 \<le> n \<and> n \<le> 13) \<or> (28 \<le> n \<and> n \<le> 32))"

definition strip :: "string \<Rightarrow> string" where
  "strip s = rev (dropWhile is_space (rev (dropWhile is_space s)))"

text \<open>\<open>.replace('\n', ' ')\<close>\<close>

definition replace_newlines :: "string \<Rightarrow> string" where
  "replace_newlines s = map (\<lambda>c. if c = CHR 0x0A then CHR '' '' else c) s"

text \<open>
  One match of the pattern \<open><(/?)(\w+)(.*?)(/?)>|([^<]+)\<close>: the groups
  \<open>tag_close, tag_name, attrs, self_close\<close> of the first alternative, or the group
  \<open>text\<close> of the second (the groups of the other alternative are \<open>None\<close>).
\<close>

datatype regex_match = Tag_match string string string string | Text_match string

text \<open>
  The lazy \<open>(.*?)\<close> followed by \<open>(/?)>\<close>, from the end of the tag name: at each
  position the optional slash is tried first, then the bare \<open>>\<close>, and only then one
  more character (any character, the pattern is compiled with DOTALL) is given to
  \<open>attrs\<close>. The result is \<open>attrs\<close>, \<open>self_close\<close> and the text after the match.
\<close>

fun tag_end :: "string \<Rightarrow> (string \<times> string \<times> string) option" where
  "tag_end [] = None"
| "tag_end (c # cs) =
     (if c = CHR ''/'' \<and> cs \<noteq> [] \<and> hd cs = CHR ''>'' then Some ([], ''/'', tl cs)
      else if c = CHR ''>'' then Some ([], [], cs)
      else (case tag_end cs of
              None \<Rightarrow> None
            | Some (attrs, self_close, rest) \<Rightarrow> Some (c # attrs, self_close, rest)))"

text \<open>
  The first alternative tried at a \<open><\<close>; \<open>s\<close> is the text after the \<open><\<close>. The slash
  and the name are greedy; giving up the slash or a part of the name cannot turn a
  failure into a match, since the name must start at a word character and \<open>>\<close> and
  \<open>/\<close> are not word characters.
\<close>

definition match_tag :: "string \<Rightarrow> (regex_match \<times> string) option" where
  "match_tag s =
     (let tag_close = (if s \<noteq> [] \<and> hd s = CHR ''/'' then ''/'' else []);
          s1 = (if tag_close \<noteq> [] then tl s else s);
          tag_name = takeWhile is_word_char s1
      in if tag_name = [] then None
         else (case tag_end (dropWhile is_word_char s1) of
                 None \<Rightarrow> None
               | Some (attrs, self_close, rest) \<Rightarrow>
                   Some (Tag_match tag_close tag_name attrs self_close, rest)))"

lemma tag_end_length: "tag_end s = Some (a, sc, rest) \<Longrightarrow> length rest \<le> length s"
proof (induction s arbitrary: a)
  case Nil
  then show ?case by simp
next
  case (Cons c cs)
  then show ?case
    by (cases cs) (auto split: if_splits option.splits)
qed

lemma match_tag_length: "match_tag s = Some (m, rest) \<Longrightarrow> length rest \<le> length s"
proof -
  assume a: "match_tag s = Some (m, rest)"
  let ?s1 = "if (if s \<noteq> [] \<and> hd s = CHR ''/'' then ''/'' else []) \<noteq> [] then tl s else s"
  from a obtain at sc where "tag_end (dropWhile is_word_char ?s1) = Some (at, sc, rest)"
    by (auto simp: match_tag_def Let_def split: if_splits option.splits)
  then have "length rest \<le> length (dropWhile is_word_char ?s1)"
    by (rule tag_end_length)
  also have "\<dots> \<le> length ?s1" by (rule length_dropWhile_le)
  also have "\<dots> \<le> length s" by simp
  finally show ?thesis .
qed

text \<open>
  \<open>pattern.finditer(content)\<close>: the matches from left to right. Where neither
  alternative matches (a \<open><\<close> that starts no tag), the scan moves on by one character.
\<close>

function finditer :: "string \<Rightarrow> regex_match list" where
  "finditer [] = []"
| "finditer (c # cs) =
     (if c = CHR ''<'' then
        (case match_tag cs of
           Some (m, rest) \<Rightarrow> m # finditer rest
         | None \<Rightarrow> finditer cs)
      else Text_match (takeWhile (\<lambda>x. x \<noteq> CHR ''<'') (c # cs))
             # finditer (dropWhile (\<lambda>x. x \<noteq> CHR ''<'') cs))"
  by pat_completeness auto
termination
proof (relation "measure length")
  show "wf (measure length)" by simp
next
  fix c :: char and cs x2 x y
  assume "match_tag cs = Some x2" "(x, y) = x2"
  then have "length y \<le> length cs" using match_tag_length [of cs x y] by simp
  then show "(y, c # cs) \<in> measure length" by simp
next
  fix c :: char and cs
  show "(cs, c # cs) \<in> measure length" by simp
next
  fix c :: char and cs
  have "length (dropWhile (\<lambda>x. x \<noteq> CHR ''<'') cs) \<le> length cs" by (rule length_dropWhile_le)
  then show "(dropWhile (\<lambda>x. x \<noteq> CHR ''<'') cs, c # cs) \<in> measure length" by simp
qed

declare finditer.simps [simp del]

subsection \<open>\<open>_convert_attrs\<close>\<close>

text \<open>
  The lazy \<open>(.*?)\<close> followed by a quote in \<open>(\w+)=["\'](.*?)["\']\<close>; here \<open>.\<close> does
  not match a newline.
\<close>

fun quote_end :: "string \<Rightarrow> (string \<times> string) option" where
  "quote_end [] = None"
| "quote_end (c # cs) =
     (if c = CHR 0x22 \<or> c = CHR 0x27 then Some ([], cs)
      else if c = CHR 0x0A then None
      else (case quote_end cs of None \<Rightarrow> None | Some (v, rest) \<Rightarrow> Some (c # v, rest)))"

definition match_attr :: "string \<Rightarrow> ((string \<times> string) \<times> string) option" where
  "match_attr s =
     (let name = takeWhile is_word_char s; s1 = dropWhile is_word_char s
      in if name = [] then None
         else (case s1 of
                 e # q # s2 \<Rightarrow>
                   if e = CHR ''='' \<and> (q = CHR 0x22 \<or> q = CHR 0x27) then
                     (case quote_end s2 of
                        None \<Rightarrow> None
                      | Some (v, rest) \<Rightarrow> Some ((name, v), rest))
                   else None
               | _ \<Rightarrow> None))"

lemma quote_end_length: "quote_end s = Some (v, rest) \<Longrightarrow> length rest < length s"
  by (induction s arbitrary: v) (auto split: if_splits option.splits)

lemma match_attr_length: "match_attr s = Some (nv, rest) \<Longrightarrow> length rest < length s"
proof -
  assume a: "match_attr s = Some (nv, rest)"
  then obtain e q s2 v where s1: "dropWhile is_word_char s = e # q # s2"
    and q: "quote_end s2 = Some (v, rest)"
    by (auto simp: match_attr_def Let_def split: if_splits option.splits list.splits)
  have "length rest < length s2" using q by (rule quote_end_length)
  also have "\<dots> \<le> length (dropWhile is_word_char s)" using s1 by simp
  also have "\<dots> \<le> length s" by (rule length_dropWhile_le)
  finally show ?thesis .
qed

function findall :: "string \<Rightarrow> (string \<times> string) list" where
  "findall [] = []"
| "findall (c # cs) =
     (case match_attr (c # cs) of
        Some (nv, rest) \<Rightarrow> nv # findall rest
      | None \<Rightarrow> findall cs)"
  by pat_completeness auto
termination
proof (relation "measure length")
  show "wf (measure length)" by simp
next
  fix c :: char and cs x2 x y
  assume "match_attr (c # cs) = Some x2" "(x, y) = x2"
  then have "length y < length (c # cs)" using match_attr_length [of "c # cs" x y] by simp
  then show "(y, c # cs) \<in> measure length" by simp
next
  fix c :: char and cs
  show "(cs, c # cs) \<in> measure length" by simp
qed

declare findall.simps [simp del]

definition attr_map :: "string \<Rightarrow> string option" where
  "attr_map =
     [''class'' \<mapsto> ''klass'', ''for'' \<mapsto> ''for_'', ''async'' \<mapsto> ''async_'', ''type'' \<mapsto> ''type_'']"

definition convert_attrs :: "string \<Rightarrow> string" where
  "convert_attrs attrs =
     (let attrs_dict =
            foldl (\<lambda>d nv. case nv of (name, v) \<Rightarrow>
                     dict_set d (case attr_map name of None \<Rightarrow> name | Some py_name \<Rightarrow> py_name) v)
              [] (findall attrs)
      in str_join '', '' (map (\<lambda>kv. case kv of (k, v) \<Rightarrow> k @ ''='' @ dq @ v @ dq) attrs_dict))"

subsection \<open>\<open>_parse_section\<close>\<close>

record scan_state =
  lines :: "string list"
  indent :: int
  stack :: "string list"

text \<open>\<open>"    " * indent\<close>\<close>

definition indent_str :: "int \<Rightarrow> string" where
  "indent_str n = concat (replicate (nat n) ''    '')"

text \<open>
  The body of the loop for one match. A text match is never empty (\<open>[^<]+\<close>), so
  \<open>if text\<close> holds exactly for the matches of the second alternative.
\<close>

fun parse_step :: "string \<Rightarrow> scan_state \<Rightarrow> regex_match \<Rightarrow> scan_state" where
  "parse_step section st (Text_match text) =
     (let clean_text = replace_newlines (strip text)
      in if clean_text \<noteq> [] then
           st\<lparr>lines := lines st @
                 [indent_str (indent st) @ ''com.'' @ section @ ''.text('' @ dq @ clean_text @ dq @ '')'']\<rparr>
         else st)"
| "parse_step section st (Tag_match tag_close tag_name attrs self_close) =
     (if tag_close \<noteq> [] then
        (if stack st \<noteq> [] \<and> last (stack st) = tag_name then
           st\<lparr>stack := butlast (stack st), indent := max 1 (indent st - 1)\<rparr>
         else st)
      else
        (let attr_str = convert_attrs attrs;
             st' = st\<lparr>lines := lines st @
                     [indent_str (indent st) @ ''com.'' @ section @ ''.'' @ tag_name
                        @ ''('' @ attr_str @ '')'']\<rparr>
         in if self_close = [] then st'\<lparr>stack := stack st' @ [tag_name], indent := indent st' + 1\<rparr>
            else st'))"

definition parse_init :: scan_state where
  "parse_init = \<lparr>lines = [], indent = 1, stack = []\<rparr>"

text \<open>The state when the loop of \<open>_parse_section\<close> ends, and the lines it returns.\<close>

definition parse_scan :: "string \<Rightarrow> string \<Rightarrow> scan_state" where
  "parse_scan content_str section = foldl (parse_step section) parse_init (finditer content_str)"

definition parse_section :: "string \<Rightarrow> string \<Rightarrow> string list" where
  "parse_section content_str section = lines (parse_scan content_str section)"

text \<open>
  The text cleaning in the spec's words, for comparison with \<open>replace_newlines\<close>:
  internal newlines collapsed to single spaces, a run of newlines giving one space.
\<close>

fun collapse_newlines :: "string \<Rightarrow> string" where
  "collapse_newlines [] = []"
| "collapse_newlines [c] = [if c = CHR 0x0A then CHR '' '' else c]"
| "collapse_newlines (c # d # cs) =
     (if c = CHR 0x0A \<and> d = CHR 0x0A then collapse_newlines (d # cs)
      else (if c = CHR 0x0A then CHR '' '' else c) # collapse_newlines (d # cs))"

section \<open>Properties of attribute normalization\<close>

lemma new_key_no_underscore: "CHR ''_'' \<notin> set (new_key k)"
  by (auto simp: new_key_def)

lemma new_key_fixed: "CHR ''_'' \<notin> set k \<Longrightarrow> new_key k = k"
proof -
  assume a: "CHR ''_'' \<notin> set k"
  then have "\<not> endswith_underscore k"
    by (metis endswith_underscore_def last_in_set)
  moreover have "map (\<lambda>c. if c = CHR ''_'' then CHR ''-'' else c) k = k"
    using a by (induction k) auto
  ultimately show ?thesis by (simp add: new_key_def)
qed

lemma new_key_idem: "new_key (new_key k) = new_key k"
  by (rule new_key_fixed) (rule new_key_no_underscore)

lemma map_us_klass:
  "map (\<lambda>c. if c = CHR ''_'' then CHR ''-'' else c) xs = ''klass'' \<Longrightarrow> xs = ''klass''"
  by (auto simp: map_eq_Cons_conv split: if_splits)

lemma new_key_klass: "new_key k = ''klass'' \<Longrightarrow> k = ''klass'' \<or> k = ''klass_''"
proof -
  assume a: "new_key k = ''klass''"
  show ?thesis
  proof (cases "endswith_underscore k")
    case True
    then have "butlast k = ''klass''" using a map_us_klass by (simp add: new_key_def)
    moreover have "k = butlast k @ [CHR ''_'']"
      using True append_butlast_last_id [of k] by (simp add: endswith_underscore_def)
    ultimately show ?thesis by simp
  next
    case False
    then show ?thesis using a map_us_klass by (simp add: new_key_def)
  qed
qed

lemma set_dict_set: "set (dict_set d k v) \<subseteq> insert (k, v) (set d)"
  by (induction d) (auto split: if_splits)

lemma map_fst_dict_set:
  "map fst (dict_set d k v) = (if k \<in> set (map fst d) then map fst d else map fst d @ [k])"
  by (induction d) (auto simp: rev_image_eqI)

lemma distinct_dict_set: "distinct (map fst d) \<Longrightarrow> distinct (map fst (dict_set d k v))"
  by (simp add: map_fst_dict_set)

lemma dict_set_new: "k \<notin> fst ` set d \<Longrightarrow> dict_set d k v = d @ [(k, v)]"
  by (induction d) auto

lemma stable_dict_set:
  "stable_pairs d \<Longrightarrow> k \<noteq> ''klass'' \<Longrightarrow> new_key k = k \<Longrightarrow> v \<noteq> PBool True
   \<Longrightarrow> stable_pairs (dict_set d k v)"
  unfolding stable_pairs_def using set_dict_set [of d k v] by (auto simp: distinct_dict_set)

lemma stable_no_True: "stable_pairs c \<Longrightarrow> map_of c k \<noteq> Some (PBool True)"
  unfolding stable_pairs_def by (auto dest: map_of_SomeD)

lemma convert_loop_stable:
  "stable_pairs acc \<Longrightarrow> ''klass_'' \<notin> fst ` set m \<Longrightarrow> (''klass'', PBool True) \<notin> set m \<Longrightarrow>
   \<exists>c. convert_loop (as_raw m) acc = Inr c \<and> stable_pairs c"
proof (induction m arbitrary: acc)
  case Nil
  then show ?case by (simp add: as_raw_def)
next
  case (Cons kv m)
  obtain k v where kv: "kv = (k, v)" by (cases kv)
  show ?case
  proof (cases "k = ''klass''")
    case True
    with Cons.prems kv have "v \<noteq> PBool True" by auto
    then have "stable_pairs (dict_set acc ''class'' v)"
      using Cons.prems(1)
      by (intro stable_dict_set) (simp_all add: new_key_def endswith_underscore_def)
    from Cons.IH [OF this] Cons.prems True kv show ?thesis by (simp add: as_raw_def)
  next
    case False
    with Cons.prems kv have "new_key k \<noteq> ''klass''" using new_key_klass [of k] by auto
    then have "stable_pairs (dict_set acc (new_key k) (if v = PBool True then PNone else v))"
      using Cons.prems(1) by (intro stable_dict_set) (simp_all add: new_key_idem)
    from Cons.IH [OF this] Cons.prems False kv show ?thesis by (simp add: as_raw_def)
  qed
qed

lemma convert_loop_fixed:
  "stable_pairs c \<Longrightarrow> fst ` set c \<inter> fst ` set acc = {}
   \<Longrightarrow> convert_loop (as_raw c) acc = Inr (acc @ c)"
proof (induction c arbitrary: acc)
  case Nil
  then show ?case by (simp add: as_raw_def)
next
  case (Cons kv c)
  obtain k v where kv: "kv = (k, v)" by (cases kv)
  from Cons.prems kv
  have k: "k \<noteq> ''klass''" "new_key k = k" "v \<noteq> PBool True" "k \<notin> fst ` set acc"
    and st: "stable_pairs c" and kc: "k \<notin> fst ` set c"
    by (auto simp: stable_pairs_def)
  have "fst ` set c \<inter> fst ` set (acc @ [(k, v)]) = {}"
    using Cons.prems(2) kc kv by auto
  from Cons.IH [OF st this] k kv show ?case
    by (simp add: as_raw_def dict_set_new)
qed

lemma converted_attributes_stable:
  assumes "''klass_'' \<notin> fst ` set m" and "(''klass'', PBool True) \<notin> set m"
  shows "\<exists>c. converted_attributes tg (as_raw m) = Inr c \<and> stable_pairs c"
proof -
  have "stable_pairs []" by (simp add: stable_pairs_def)
  from convert_loop_stable [OF this assms]
  obtain c where c: "convert_loop (as_raw m) [] = Inr c" "stable_pairs c" by blast
  then show ?thesis
    by (simp add: converted_attributes_def stable_no_True)
qed

lemma converted_attributes_fixed:
  "stable_pairs c \<Longrightarrow> converted_attributes tg (as_raw c) = Inr c"
  using convert_loop_fixed [of c "[]"]
  by (simp add: converted_attributes_def stable_no_True)

text \<open>
  C1 (as amended). For every string-keyed attribute mapping that has no key \<open>klass_\<close>
  and does not give \<open>klass\<close> the value \<open>True\<close>, normalization succeeds, and feeding
  the ordered pairs it produced back in as the raw mapping yields the same ordered
  pairs, hence the same ordered tokens and the same attribute string.
\<close>

theorem normalization_idempotent:
  assumes "''klass_'' \<notin> fst ` set m" and "(''klass'', PBool True) \<notin> set m"
  shows "\<exists>c. converted_attributes tg (as_raw m) = Inr c
             \<and> converted_attributes tg (as_raw c) = Inr c
             \<and> convert_attributes tg (as_raw c) = Inr (str_join '' '' (attr_parts c))
             \<and> convert_attributes tg (as_raw c) = convert_attributes tg (as_raw m)"
proof -
  from converted_attributes_stable [OF assms]
  obtain c where c: "converted_attributes tg (as_raw m) = Inr c" "stable_pairs c" by blast
  have "converted_attributes tg (as_raw c) = Inr c"
    using c(2) by (rule converted_attributes_fixed)
  with c(1) show ?thesis by (simp add: convert_attributes_def)
qed

theorem normalization_idempotent_witness:
  "''klass_'' \<notin> fst ` set [(''klass'', PStr ''a''), (''data_x_'', PBool True), (''for_'', PStr ''n'')]
   \<and> (''klass'', PBool True) \<notin> set [(''klass'', PStr ''a''), (''data_x_'', PBool True), (''for_'', PStr ''n'')]
   \<and> (\<exists>c. converted_attributes (Some ''label'')
             (as_raw [(''klass'', PStr ''a''), (''data_x_'', PBool True), (''for_'', PStr ''n'')]) = Inr c
          \<and> converted_attributes (Some ''label'') (as_raw c) = Inr c
          \<and> convert_attributes (Some ''label'') (as_raw c) = Inr (str_join '' '' (attr_parts c))
          \<and> convert_attributes (Some ''label'') (as_raw c)
              = convert_attributes (Some ''label'')
                  (as_raw [(''klass'', PStr ''a''), (''data_x_'', PBool True), (''for_'', PStr ''n'')]))"
  using normalization_idempotent
          [of "[(''klass'', PStr ''a''), (''data_x_'', PBool True), (''for_'', PStr ''n'')]"
              "Some ''label''"]
  by simp

text \<open>
  C1 as stated fails. The key \<open>klass_\<close> normalizes to \<open>klass\<close>, which a second pass
  renames to \<open>class\<close>; and \<open>klass\<close> with the value \<open>True\<close> gives \<open>class="True"\<close>,
  which a second pass turns into the bare token \<open>class\<close>.
\<close>

theorem normalization_not_idempotent:
  "converted_attributes (Some ''p'') (as_raw [(''klass_'', PStr ''x'')]) = Inr [(''klass'', PStr ''x'')]
   \<and> attr_parts [(''klass'', PStr ''x'')] = [''klass='' @ dq @ ''x'' @ dq]
   \<and> converted_attributes (Some ''p'') (as_raw [(''klass'', PStr ''x'')]) = Inr [(''class'', PStr ''x'')]
   \<and> attr_parts [(''class'', PStr ''x'')] = [''class='' @ dq @ ''x'' @ dq]
   \<and> converted_attributes (Some ''p'') (as_raw [(''klass'', PBool True)]) = Inr [(''class'', PBool True)]
   \<and> attr_parts [(''class'', PBool True)] = [''class='' @ dq @ ''True'' @ dq]
   \<and> converted_attributes (Some ''p'') (as_raw [(''class'', PBool True)]) = Inr [(''class'', PNone)]
   \<and> attr_parts [(''class'', PNone)] = [''class'']"
  by (simp add: converted_attributes_def as_raw_def new_key_def endswith_underscore_def
        attr_parts_def attr_part_def)

section \<open>Properties of rendering\<close>


lemma render_unfold:
  "render n indent_level parent_inline =
     (if is_text_node n then Inr (indent_of indent_level @ content n)
      else
        (case convert_attributes (tag n) (attr n) of
           Inl e \<Rightarrow> Inl e
         | Inr attr_str \<Rightarrow>
             if is_void n then Inr (open_tag indent_level (tag n) attr_str @ '' />'')
             else
               (case (if children n \<noteq> [] then
                        (if inline n \<or> force_inline_flag n \<or> parent_inline then
                           (case sequence (map (\<lambda>child. render child 0 True) (children n)) of
                              Inl e \<Rightarrow> Inl e
                            | Inr rs \<Rightarrow> Inr (concat rs))
                         else
                           (case sequence
                                   (map (\<lambda>child. render child (indent_level + 1) False) (children n)) of
                              Inl e \<Rightarrow> Inl e
                            | Inr rs \<Rightarrow> Inr (nl @ str_join nl rs @ nl @ indent_of indent_level)))
                      else Inr (content n))
                of
                  Inl e \<Rightarrow> Inl e
                | Inr children_content \<Rightarrow>
                    Inr (open_tag indent_level (tag n) attr_str @ ''>'' @ children_content
                         @ close_tag (tag n)))))"
  by (cases n; hypsubst; simp add: Let_def cong: sum.case_cong if_cong)

lemma render_flat_unfold:
  "render_flat n indent_level =
     (if is_text_node n then Inr (indent_of indent_level @ content n)
      else
        (case convert_attributes (tag n) (attr n) of
           Inl e \<Rightarrow> Inl e
         | Inr attr_str \<Rightarrow>
             if is_void n then Inr (open_tag indent_level (tag n) attr_str @ '' />'')
             else
               (case (if children n \<noteq> [] then
                        (case sequence (map (\<lambda>child. render_flat child 0) (children n)) of
                           Inl e \<Rightarrow> Inl e
                         | Inr rs \<Rightarrow> Inr (concat rs))
                      else Inr (content n))
                of
                  Inl e \<Rightarrow> Inl e
                | Inr children_content \<Rightarrow>
                    Inr (open_tag indent_level (tag n) attr_str @ ''>'' @ children_content
                         @ close_tag (tag n)))))"
  by (cases n; hypsubst; simp cong: sum.case_cong if_cong)

lemma render_parent_inline_flat: "render n i True = render_flat n i"
proof (induction n arbitrary: i)
  case (HTMLNode tg ct at ch iv it il fi)
  have m: "map (\<lambda>child. render child 0 True) ch = map (\<lambda>child. render_flat child 0) ch"
    using HTMLNode.IH by (intro map_cong) simp_all
  show ?case by (simp add: Let_def m cong: sum.case_cong if_cong)
qed

lemma render_inline_flat:
  assumes "inline n \<or> force_inline_flag n \<or> p"
  shows "render n i p = render_flat n i"
proof -
  have m: "map (\<lambda>child. render child 0 True) (children n)
        = map (\<lambda>child. render_flat child 0) (children n)"
    by (simp add: render_parent_inline_flat)
  show ?thesis
    using assms
    by (simp add: render_unfold [of n i p] render_flat_unfold [of n i] m
          cong: sum.case_cong if_cong)
qed

lemma flags_from_tag_init: "flags_from_tag (HTMLNode_init tg ct at)"
  by (simp add: flags_from_tag_def HTMLNode_init_def Let_def split: option.splits)

lemma flags_from_tag_add_child_self: "flags_from_tag n \<Longrightarrow> flags_from_tag (fst (add_child n tg ct at))"
  by (simp add: flags_from_tag_def add_child_def Let_def split: option.splits)

lemma flags_from_tag_add_child_result:
  "add_child n tg ct at = (n', Inr c) \<Longrightarrow> flags_from_tag c"
  by (auto simp: add_child_def Let_def flags_from_tag_init split: option.splits if_splits)

lemma flags_from_tag_force_inline: "flags_from_tag n \<Longrightarrow> flags_from_tag (force_inline n r)"
  by (cases n) (simp add: flags_from_tag_def)

text \<open>
  C2. A node whose tag is in the fixed void-element set, with the flags \<open>__init__\<close>
  derived from that tag, renders as the indent, the opening tag with its normalized
  attributes and \<open> />\<close>, whatever its children and its content are: neither occurs
  in the result, and there is no closing tag. (An attribute key that is not a string
  makes \<open>_convert_attributes\<close> raise, which is the \<open>Inl\<close> case.)
\<close>

theorem render_void:
  assumes "tag n = Some t" and "t \<in> VOID_ELEMENTS" and "flags_from_tag n"
  shows "render n indent_level parent_inline =
           (case convert_attributes (Some t) (attr n) of
              Inl e \<Rightarrow> Inl e
            | Inr attr_str \<Rightarrow>
                Inr (indent_of indent_level @ ''<'' @ t
                     @ (if attr_str \<noteq> [] then '' '' @ attr_str else []) @ '' />''))"
  using assms
  by (simp add: render_unfold [of n] flags_from_tag_def open_tag_def tag_text_def
        split: sum.splits)



theorem render_void_witness:
  "tag (fst (add_child (HTMLNode_init (Some ''br'') ''text'' (Some [(PStr ''klass'', PStr ''x'')]))
              (Some ''p'') (Val (PStr ''child'')) (Val PNone))) = Some ''br''
   \<and> ''br'' \<in> VOID_ELEMENTS
   \<and> flags_from_tag (fst (add_child (HTMLNode_init (Some ''br'') ''text'' (Some [(PStr ''klass'', PStr ''x'')]))
              (Some ''p'') (Val (PStr ''child'')) (Val PNone)))
   \<and> children (fst (add_child (HTMLNode_init (Some ''br'') ''text'' (Some [(PStr ''klass'', PStr ''x'')]))
              (Some ''p'') (Val (PStr ''child'')) (Val PNone))) \<noteq> []
   \<and> render (fst (add_child (HTMLNode_init (Some ''br'') ''text'' (Some [(PStr ''klass'', PStr ''x'')]))
              (Some ''p'') (Val (PStr ''child'')) (Val PNone))) 1 False
       = Inr (tab @ ''<br class='' @ dq @ ''x'' @ dq @ '' />'')"
  using render_void
          [of "fst (add_child (HTMLNode_init (Some ''br'') ''text'' (Some [(PStr ''klass'', PStr ''x'')]))
              (Some ''p'') (Val (PStr ''child'')) (Val PNone))" "''br''" 1 False]
  by (simp add: add_child_def HTMLNode_init_def endswith_underscore_def VOID_ELEMENTS_def
        INLINE_ELEMENTS_def flags_from_tag_def convert_attributes_def converted_attributes_def
        attr_parts_def attr_part_def indent_of_def Let_def)

text \<open>
  C3. A non-void element node with \<open>_force_inline\<close> set renders its children as the
  concatenation of each child's \<open>render(0, True)\<close>; with the flag set, and likewise
  for every node rendered with \<open>parent_inline = True\<close> (so for every descendant),
  \<open>render\<close> is the flat rendering of the whole subtree. A non-void element node
  that is neither inline nor forced inline, rendered with \<open>parent_inline = False\<close>,
  has its children rendered at \<open>indent_level + 1\<close> with \<open>parent_inline = False\<close>,
  joined by newlines, after a newline and before a newline and the current indent:
  the result is a function of that node alone, so a sibling's flag cannot change it.
\<close>

theorem inline_downward_not_sideways:
  "(\<not> is_text_node n \<and> \<not> is_void n \<and> force_inline_flag n \<and> children n \<noteq> [] \<longrightarrow>
      render n i p =
        (case convert_attributes (tag n) (attr n) of
           Inl e \<Rightarrow> Inl e
         | Inr attr_str \<Rightarrow>
             (case sequence (map (\<lambda>child. render child 0 True) (children n)) of
                Inl e \<Rightarrow> Inl e
              | Inr rs \<Rightarrow>
                  Inr (open_tag i (tag n) attr_str @ ''>'' @ concat rs @ close_tag (tag n)))))
   \<and> (force_inline_flag n \<longrightarrow> render n i p = render_flat n i)
   \<and> render d j True = render_flat d j
   \<and> (\<not> is_text_node m \<and> \<not> is_void m \<and> \<not> inline m \<and> \<not> force_inline_flag m
        \<and> children m \<noteq> [] \<longrightarrow>
      render m k False =
        (case convert_attributes (tag m) (attr m) of
           Inl e \<Rightarrow> Inl e
         | Inr attr_str \<Rightarrow>
             (case sequence (map (\<lambda>child. render child (k + 1) False) (children m)) of
                Inl e \<Rightarrow> Inl e
              | Inr rs \<Rightarrow>
                  Inr (open_tag k (tag m) attr_str @ ''>'' @ nl @ str_join nl rs @ nl
                       @ indent_of k @ close_tag (tag m)))))"
proof (intro conjI impI)
  assume "\<not> is_text_node n \<and> \<not> is_void n \<and> force_inline_flag n \<and> children n \<noteq> []"
  then show "render n i p =
        (case convert_attributes (tag n) (attr n) of
           Inl e \<Rightarrow> Inl e
         | Inr attr_str \<Rightarrow>
             (case sequence (map (\<lambda>child. render child 0 True) (children n)) of
                Inl e \<Rightarrow> Inl e
              | Inr rs \<Rightarrow>
                  Inr (open_tag i (tag n) attr_str @ ''>'' @ concat rs @ close_tag (tag n))))"
    by (simp add: render_unfold [of n i p] split: sum.splits)
next
  assume "force_inline_flag n"
  then show "render n i p = render_flat n i" by (simp add: render_inline_flat)
next
  show "render d j True = render_flat d j" by (rule render_parent_inline_flat)
next
  assume "\<not> is_text_node m \<and> \<not> is_void m \<and> \<not> inline m \<and> \<not> force_inline_flag m
        \<and> children m \<noteq> []"
  then show "render m k False =
        (case convert_attributes (tag m) (attr m) of
           Inl e \<Rightarrow> Inl e
         | Inr attr_str \<Rightarrow>
             (case sequence (map (\<lambda>child. render child (k + 1) False) (children m)) of
                Inl e \<Rightarrow> Inl e
              | Inr rs \<Rightarrow>
                  Inr (open_tag k (tag m) attr_str @ ''>'' @ nl @ str_join nl rs @ nl
                       @ indent_of k @ close_tag (tag m))))"
    by (simp add: render_unfold [of m k False] split: sum.splits)
qed


theorem inline_downward_not_sideways_witness:
  "\<not> is_text_node (force_inline (fst (add_child (fst (add_child (HTMLNode_init (Some ''div'') [] None)
        None (Val (PStr ''a'')) (Val PNone))) (Some ''p'') (Val (PStr ''b'')) (Val PNone))) False)
   \<and> \<not> is_void (force_inline (fst (add_child (fst (add_child (HTMLNode_init (Some ''div'') [] None)
        None (Val (PStr ''a'')) (Val PNone))) (Some ''p'') (Val (PStr ''b'')) (Val PNone))) False)
   \<and> force_inline_flag (force_inline (fst (add_child (fst (add_child (HTMLNode_init (Some ''div'') [] None)
        None (Val (PStr ''a'')) (Val PNone))) (Some ''p'') (Val (PStr ''b'')) (Val PNone))) False)
   \<and> children (force_inline (fst (add_child (fst (add_child (HTMLNode_init (Some ''div'') [] None)
        None (Val (PStr ''a'')) (Val PNone))) (Some ''p'') (Val (PStr ''b'')) (Val PNone))) False) \<noteq> []
   \<and> render (force_inline (fst (add_child (fst (add_child (HTMLNode_init (Some ''div'') [] None)
        None (Val (PStr ''a'')) (Val PNone))) (Some ''p'') (Val (PStr ''b'')) (Val PNone))) False) 1 False
       = Inr (tab @ ''<div>a<p>b</p></div>'')
   \<and> \<not> is_text_node (fst (add_child (fst (add_child (HTMLNode_init (Some ''div'') [] None)
        None (Val (PStr ''a'')) (Val PNone))) (Some ''p'') (Val (PStr ''b'')) (Val PNone)))
   \<and> \<not> is_void (fst (add_child (fst (add_child (HTMLNode_init (Some ''div'') [] None)
        None (Val (PStr ''a'')) (Val PNone))) (Some ''p'') (Val (PStr ''b'')) (Val PNone)))
   \<and> \<not> inline (fst (add_child (fst (add_child (HTMLNode_init (Some ''div'') [] None)
        None (Val (PStr ''a'')) (Val PNone))) (Some ''p'') (Val (PStr ''b'')) (Val PNone)))
   \<and> \<not> force_inline_flag (fst (add_child (fst (add_child (HTMLNode_init (Some ''div'') [] None)
        None (Val (PStr ''a'')) (Val PNone))) (Some ''p'') (Val (PStr ''b'')) (Val PNone)))
   \<and> children (fst (add_child (fst (add_child (HTMLNode_init (Some ''div'') [] None)
        None (Val (PStr ''a'')) (Val PNone))) (Some ''p'') (Val (PStr ''b'')) (Val PNone))) \<noteq> []
   \<and> render (fst (add_child (fst (add_child (HTMLNode_init (Some ''div'') [] None)
        None (Val (PStr ''a'')) (Val PNone))) (Some ''p'') (Val (PStr ''b'')) (Val PNone))) 1 False
       = Inr (tab @ ''<div>'' @ nl @ tab @ tab @ ''a'' @ nl @ tab @ tab @ ''<p>b</p>'' @ nl
              @ tab @ ''</div>'')"
  using inline_downward_not_sideways
    [of "force_inline (fst (add_child (fst (add_child (HTMLNode_init (Some ''div'') [] None)
        None (Val (PStr ''a'')) (Val PNone))) (Some ''p'') (Val (PStr ''b'')) (Val PNone))) False"
        1 False
        "HTMLNode_init None ''a'' None" 0
        "fst (add_child (fst (add_child (HTMLNode_init (Some ''div'') [] None)
        None (Val (PStr ''a'')) (Val PNone))) (Some ''p'') (Val (PStr ''b'')) (Val PNone))" 1]
  by (simp add: add_child_def HTMLNode_init_def endswith_underscore_def VOID_ELEMENTS_def
        INLINE_ELEMENTS_def convert_attributes_def converted_attributes_def
        attr_parts_def indent_of_def open_tag_def close_tag_def tag_text_def Let_def
        eval_nat_numeral)

lemma inline_tag_facts:
  assumes "t \<in> INLINE_ELEMENTS"
  shows "t \<noteq> []" and "\<not> endswith_underscore t" and "t \<notin> VOID_ELEMENTS"
  using assms by (auto simp: INLINE_ELEMENTS_def VOID_ELEMENTS_def endswith_underscore_def)

text \<open>
  C10. For every tag in \<open>INLINE_ELEMENTS\<close> the node that \<open>__init__\<close> builds is a
  non-void element node with \<open>inline\<close> true and \<open>_force_inline\<close> false, and with
  children \<open>cs\<close> it renders them as the concatenation of each child's
  \<open>render(0, True)\<close> even with \<open>parent_inline = False\<close>. A constructed node has
  \<open>inline\<close> true exactly when its tag is in the set; a text node has it false.
\<close>

theorem inline_by_default:
  "(t \<in> INLINE_ELEMENTS \<longrightarrow>
      HTMLNode_init (Some t) ct at
        = HTMLNode (Some t) ct (case at of None \<Rightarrow> [] | Some d \<Rightarrow> d) [] False False True False
      \<and> (cs \<noteq> [] \<longrightarrow>
           render (HTMLNode (Some t) ct (case at of None \<Rightarrow> [] | Some d \<Rightarrow> d) cs False False True False)
             i False =
           (case convert_attributes (Some t) (case at of None \<Rightarrow> [] | Some d \<Rightarrow> d) of
              Inl e \<Rightarrow> Inl e
            | Inr attr_str \<Rightarrow>
                (case sequence (map (\<lambda>child. render child 0 True) cs) of
                   Inl e \<Rightarrow> Inl e
                 | Inr rs \<Rightarrow>
                     Inr (open_tag i (Some t) attr_str @ ''>'' @ concat rs @ close_tag (Some t))))))
   \<and> (inline (HTMLNode_init tg ct at)
        \<longleftrightarrow> (\<exists>t' \<in> INLINE_ELEMENTS. tag (HTMLNode_init tg ct at) = Some t'))
   \<and> \<not> inline (HTMLNode_init None ct at)"
proof (intro conjI impI)
  assume t: "t \<in> INLINE_ELEMENTS"
  show "HTMLNode_init (Some t) ct at
        = HTMLNode (Some t) ct (case at of None \<Rightarrow> [] | Some d \<Rightarrow> d) [] False False True False"
    using t inline_tag_facts [OF t]
    by (simp add: HTMLNode_init_def Let_def split: option.splits)
next
  assume "t \<in> INLINE_ELEMENTS" and "cs \<noteq> []"
  then show "render (HTMLNode (Some t) ct (case at of None \<Rightarrow> [] | Some d \<Rightarrow> d) cs False False True False)
             i False =
           (case convert_attributes (Some t) (case at of None \<Rightarrow> [] | Some d \<Rightarrow> d) of
              Inl e \<Rightarrow> Inl e
            | Inr attr_str \<Rightarrow>
                (case sequence (map (\<lambda>child. render child 0 True) cs) of
                   Inl e \<Rightarrow> Inl e
                 | Inr rs \<Rightarrow>
                     Inr (open_tag i (Some t) attr_str @ ''>'' @ concat rs @ close_tag (Some t))))"
    by (simp add: Let_def split: sum.splits)
next
  show "inline (HTMLNode_init tg ct at)
        \<longleftrightarrow> (\<exists>t' \<in> INLINE_ELEMENTS. tag (HTMLNode_init tg ct at) = Some t')"
    using inline_tag_facts(1)
    by (auto simp: HTMLNode_init_def Let_def split: option.splits)
next
  show "\<not> inline (HTMLNode_init None ct at)"
    by (simp add: HTMLNode_init_def)
qed

theorem inline_by_default_witness:
  "''span'' \<in> INLINE_ELEMENTS
   \<and> HTMLNode_init (Some ''span'') ''x'' None = HTMLNode (Some ''span'') ''x'' [] [] False False True False
   \<and> [HTMLNode_init None ''a'' None, HTMLNode_init (Some ''div'') ''b'' None] \<noteq> []
   \<and> render (HTMLNode (Some ''span'') ''x'' []
               [HTMLNode_init None ''a'' None, HTMLNode_init (Some ''div'') ''b'' None]
               False False True False) 1 False
       = Inr (tab @ ''<span>a<div>b</div></span>'')
   \<and> inline (HTMLNode_init (Some ''span'') ''x'' None)
   \<and> \<not> inline (HTMLNode_init (Some ''div'') ''x'' None)"
  using inline_by_default [of "''span''" "''x''" None
          "[HTMLNode_init None ''a'' None, HTMLNode_init (Some ''div'') ''b'' None]" 1 "Some ''div''"]
  by (simp add: HTMLNode_init_def endswith_underscore_def VOID_ELEMENTS_def
        INLINE_ELEMENTS_def convert_attributes_def converted_attributes_def
        attr_parts_def indent_of_def open_tag_def close_tag_def tag_text_def Let_def
        eval_nat_numeral)

end
